theory Spec2Isabelle
  imports Main "HOL-Library.Multiset" "HOL-Library.List_Lexorder" "HOL-Library.Char_ord"
    "HOL-Library.Log_Nat"
begin

section \<open>Data model\<close>

text \<open>
  The application is three React components over a hosted store: the router
  (\<^verbatim>\<open>App\<close>, unnamed/part_001), the two dashboards (\<^verbatim>\<open>Dashboard\<close>,
  pages/Dashboard.tsx lines 1-223 and unnamed/part_000) and the form
  (\<^verbatim>\<open>App\<close>, pages/Dashboard.tsx lines 223-758).

  The counts of the application are whole numbers (section 3 of the
  specification); a TypeScript \<^verbatim>\<open>number\<close> is modelled as the integer it
  holds, and its addition as the addition of doubles (section Numbers).
  A string-literal union (\<^verbatim>\<open>ServiceType\<close>, \<^verbatim>\<open>SectorType\<close>) is a string
  at run time and is modelled as \<^typ>\<open>string\<close>; what is proved for every
  string holds for the members of the union. Identifiers assigned by the
  store are opaque; they are modelled as natural numbers.
\<close>

type_synonym uid = nat

text \<open>\<^verbatim>\<open>interface FormData\<close> (pages/Dashboard.tsx:238).\<close>

record FormData =
  service_name :: string
  sector :: string
  car_removals :: int
  motorcycle_removals :: int
  total_approaches :: int

text \<open>
  \<^verbatim>\<open>interface Report\<close> (pages/Dashboard.tsx:11 and unnamed/part_000:24): one
  row of \<^verbatim>\<open>geotranote_reports\<close> as \<^verbatim>\<open>select('*')\<close> delivers it. The two
  interfaces name different columns of the same row; the record has the
  union of them, the form's columns first. The field \<^verbatim>\<open>id\<close> may be
  \<^verbatim>\<open>undefined\<close> (the code filters on it), hence the option.
\<close>

record Report = FormData +
  id_field :: "uid option"
  responsible_name :: string
  created_at :: string

text \<open>
  \<^verbatim>\<open>interface Infraction\<close> of the dashboard (pages/Dashboard.tsx:20) and of
  the form (pages/Dashboard.tsx:232); the form's interface adds the type and
  makes \<^verbatim>\<open>report_uid\<close> optional.
\<close>

record Infraction =
  quantity :: int
  report_uid :: "uid option"

record FormInfraction = Infraction +
  infraction_type :: string

section \<open>Routing (unnamed/part_001)\<close>

datatype element = Home | Login | Dashboard | Form | Navigate string

text \<open>
  The \<^verbatim>\<open><Routes>\<close> table of \<^verbatim>\<open>App\<close> (lines 78-89): the element rendered for
  a path under the current session; \<^const>\<open>None\<close> when no route matches.
\<close>

definition route :: "'s option \<Rightarrow> string \<Rightarrow> element option" where
  "route session path =
     (if path = ''/'' then Some Home
      else if path = ''/login'' then
        Some (if session = None then Login else Navigate ''/'')
      else if path = ''/dashboard'' then
        Some (if session \<noteq> None then Dashboard else Navigate ''/login'')
      else if path = ''/form'' then
        Some (if session \<noteq> None then Form else Navigate ''/login'')
      else None)"

section \<open>The form's local state (pages/Dashboard.tsx:246-263)\<close>

record FormState =
  formData :: FormData
  infractions :: "FormInfraction list"
  isSidebarOpen :: bool
  selectedInfraction :: string
  quantity_input :: int
  searchTerm :: string
  isDropdownOpen :: bool
  formError :: "string option"
  protocolNumber :: "string option"
  supabaseError :: "string option"

text \<open>The sector preselected by the form: \<^verbatim>\<open>'GEOTRAN - 1\<ordmasculine> Distrito'\<close>.\<close>

definition default_sector :: string where
  "default_sector = ''GEOTRAN - 1'' @ [CHR 0xBA] @ '' Distrito''"

definition default_formData :: FormData where
  "default_formData =
     \<lparr>service_name = ''ordinario'', sector = default_sector, car_removals = 0,
      motorcycle_removals = 0, total_approaches = 0\<rparr>"

text \<open>\<^verbatim>\<open>handleAddInfraction\<close> (lines 411-419).\<close>

definition handleAddInfraction :: "FormState \<Rightarrow> FormState" where
  "handleAddInfraction st =
     (if selectedInfraction st \<noteq> [] \<and> quantity_input st > 0 then
        st\<lparr>infractions := infractions st @
              [\<lparr>quantity = quantity_input st, report_uid = None,
                infraction_type = selectedInfraction st\<rparr>],
           selectedInfraction := [],
           searchTerm := [],
           quantity_input := 1,
           isSidebarOpen := False\<rparr>
      else st)"

section \<open>Numbers\<close>

text \<open>
  A JavaScript number is an IEEE double. Every integer of magnitude up to
  \<open>2^53\<close> is a double; beyond, only the multiples of a power of two are, 53
  significant bits each. The sum of two numbers is the exact sum rounded to
  the nearest double, a tie going to the even significand. Magnitudes from
  \<open>2^1024\<close> on, where the sum is \<^verbatim>\<open>Infinity\<close>, are outside the model.
\<close>

definition MAX_SAFE_INTEGER :: int where
  "MAX_SAFE_INTEGER = 2 ^ 53 - 1"

definition round_double :: "int \<Rightarrow> int" where
  "round_double x =
     (if \<bar>x\<bar> \<le> 2 ^ 53 then x
      else
        (let e = nat (bitlen \<bar>x\<bar> - 53);
             q = \<bar>x\<bar> div 2 ^ e;
             r = \<bar>x\<bar> mod 2 ^ e;
             half = 2 ^ (e - 1);
             m = (if r < half \<or> (r = half \<and> even q) then q else q + 1)
         in sgn x * (m * 2 ^ e)))"

text \<open>The operator \<^verbatim>\<open>+\<close> (and \<^verbatim>\<open>+=\<close>, \<^verbatim>\<open>++\<close>) on numbers.\<close>

definition js_plus :: "int \<Rightarrow> int \<Rightarrow> int" where
  "js_plus a b = round_double (a + b)"

section \<open>Aggregation (pages/Dashboard.tsx:94-98, unnamed/part_000:72-96)\<close>

definition totalInfractions :: "'a Infraction_scheme list \<Rightarrow> int" where
  "totalInfractions infs = foldl (\<lambda>sum inf. js_plus sum (quantity inf)) 0 infs"

definition totalRemovals :: "'a Report_scheme list \<Rightarrow> int" where
  "totalRemovals reports =
     foldl (\<lambda>sum report. js_plus (js_plus sum (car_removals report))
                                  (motorcycle_removals report)) 0 reports"

definition totalCarRemovals :: "'a Report_scheme list \<Rightarrow> int" where
  "totalCarRemovals reports =
     foldl (\<lambda>sum report. js_plus sum (car_removals report)) 0 reports"

definition totalMotorcycleRemovals :: "'a Report_scheme list \<Rightarrow> int" where
  "totalMotorcycleRemovals reports =
     foldl (\<lambda>sum report. js_plus sum (motorcycle_removals report)) 0 reports"

definition totalApproaches :: "'a Report_scheme list \<Rightarrow> int" where
  "totalApproaches reports =
     foldl (\<lambda>sum report. js_plus sum (total_approaches report)) 0 reports"

text \<open>
  \<^verbatim>\<open>acc.find(p)\<close> followed by an assignment to a field of the entry found
  changes the first entry of \<^verbatim>\<open>acc\<close> that satisfies \<^verbatim>\<open>p\<close>, in place.
\<close>

fun update_first :: "('a \<Rightarrow> bool) \<Rightarrow> ('a \<Rightarrow> 'a) \<Rightarrow> 'a list \<Rightarrow> 'a list" where
  "update_first p f [] = []"
| "update_first p f (x # xs) = (if p x then f x # xs else x # update_first p f xs)"

text \<open>The entries of the pie chart, \<^verbatim>\<open>{ name, value }\<close>.\<close>

record ServiceCount =
  sc_name :: string
  sc_value :: int

definition serviceTypeStep :: "ServiceCount list \<Rightarrow> 'a Report_scheme \<Rightarrow> ServiceCount list" where
  "serviceTypeStep acc report =
     (case find (\<lambda>item. sc_name item = service_name report) acc of
        Some existingService \<Rightarrow>
          update_first (\<lambda>item. sc_name item = service_name report)
            (\<lambda>item. item\<lparr>sc_value := js_plus (sc_value item) 1\<rparr>) acc
      | None \<Rightarrow> acc @ [\<lparr>sc_name = service_name report, sc_value = 1\<rparr>])"

definition serviceTypeData :: "'a Report_scheme list \<Rightarrow> ServiceCount list" where
  "serviceTypeData reports = foldl serviceTypeStep [] reports"

text \<open>The entries of the bar chart, \<^verbatim>\<open>{ sector, cars, motorcycles }\<close>.\<close>

record SectorRemovals =
  sr_sector :: string
  sr_cars :: int
  sr_motorcycles :: int

definition removalsStep :: "SectorRemovals list \<Rightarrow> 'a Report_scheme \<Rightarrow> SectorRemovals list" where
  "removalsStep acc report =
     (case find (\<lambda>item. sr_sector item = sector report) acc of
        Some existingEntry \<Rightarrow>
          update_first (\<lambda>item. sr_sector item = sector report)
            (\<lambda>item. item\<lparr>sr_cars := js_plus (sr_cars item) (car_removals report),
                          sr_motorcycles :=
                            js_plus (sr_motorcycles item) (motorcycle_removals report)\<rparr>) acc
      | None \<Rightarrow> acc @ [\<lparr>sr_sector = sector report, sr_cars = car_removals report,
                         sr_motorcycles = motorcycle_removals report\<rparr>])"

definition removalsBySector :: "'a Report_scheme list \<Rightarrow> SectorRemovals list" where
  "removalsBySector reports = foldl removalsStep [] reports"

text \<open>
  The reference the aggregates are compared with, in exact arithmetic: the
  keys of a list in the order of their first occurrence, the members of a
  group, and the entry of a group with its count or its sums.
\<close>

fun first_seen :: "'a list \<Rightarrow> 'a list" where
  "first_seen [] = []"
| "first_seen (x # xs) = x # filter (\<lambda>y. y \<noteq> x) (first_seen xs)"

definition in_sector :: "string \<Rightarrow> 'a Report_scheme list \<Rightarrow> 'a Report_scheme list" where
  "in_sector s reports = filter (\<lambda>r. sector r = s) reports"

definition service_entry :: "'a Report_scheme list \<Rightarrow> string \<Rightarrow> ServiceCount" where
  "service_entry rs n = \<lparr>sc_name = n, sc_value = int (count_list (map service_name rs) n)\<rparr>"

definition sector_entry :: "'a Report_scheme list \<Rightarrow> string \<Rightarrow> SectorRemovals" where
  "sector_entry rs s =
     \<lparr>sr_sector = s,
      sr_cars = sum_list (map car_removals (in_sector s rs)),
      sr_motorcycles = sum_list (map motorcycle_removals (in_sector s rs))\<rparr>"

text \<open>
  A column is safe on a list when the magnitudes of its values add up to at
  most \<^verbatim>\<open>Number.MAX_SAFE_INTEGER\<close>: then no sum over part of the list leaves
  the range in which every integer is a double.
\<close>

definition safe_sum :: "('a \<Rightarrow> int) \<Rightarrow> 'a list \<Rightarrow> bool" where
  "safe_sum f xs \<longleftrightarrow> sum_list (map (\<lambda>x. \<bar>f x\<bar>) xs) \<le> MAX_SAFE_INTEGER"

section \<open>The dashboard's read path (pages/Dashboard.tsx:27-92)\<close>

text \<open>
  The store is an external service. A request of the dashboard is the value
  the query builder has accumulated when it is awaited: the table, the
  selected columns, the ordering and the filters, in the order of the calls.
\<close>

datatype filter_op =
    Eq string string
  | Gte string string
  | Lte string string
  | In string "uid list"

record query =
  q_from :: string
  q_select :: string
  q_order :: "(string \<times> bool) option"
  q_filters :: "filter_op list"

definition eq :: "string \<Rightarrow> string \<Rightarrow> query \<Rightarrow> query" where
  "eq column v q = q\<lparr>q_filters := q_filters q @ [Eq column v]\<rparr>"

definition gte :: "string \<Rightarrow> string \<Rightarrow> query \<Rightarrow> query" where
  "gte column v q = q\<lparr>q_filters := q_filters q @ [Gte column v]\<rparr>"

definition lte :: "string \<Rightarrow> string \<Rightarrow> query \<Rightarrow> query" where
  "lte column v q = q\<lparr>q_filters := q_filters q @ [Lte column v]\<rparr>"

text \<open>The state \<^verbatim>\<open>dateRange\<close>, \<^verbatim>\<open>{ start, end }\<close>; an empty string is no date.\<close>

record DateRange =
  start_date :: string
  end_date :: string

text \<open>The query of lines 41-56; the ascending flag of the ordering is \<^verbatim>\<open>false\<close>.\<close>

definition reportsQuery :: "string \<Rightarrow> DateRange \<Rightarrow> query" where
  "reportsQuery selectedService dateRange =
     (let q0 = \<lparr>q_from = ''geotranote_reports'', q_select = ''*'',
                q_order = Some (''created_at'', False), q_filters = []\<rparr>;
          q1 = (if selectedService \<noteq> ''all'' then eq ''service_name'' selectedService q0 else q0);
          q2 = (if start_date dateRange \<noteq> [] then gte ''created_at'' (start_date dateRange) q1
                else q1);
          q3 = (if end_date dateRange \<noteq> []
                then lte ''created_at'' (end_date dateRange @ ''T23:59:59'') q2 else q2)
      in q3)"

text \<open>The query of lines 70-73.\<close>

definition infractionsQuery :: "uid list \<Rightarrow> query" where
  "infractionsQuery reportUids =
     \<lparr>q_from = ''infractions'', q_select = ''quantity, report_uid'', q_order = None,
      q_filters = [In ''report_uid'' reportUids]\<rparr>"

text \<open>
  The answer of the store, \<^verbatim>\<open>{ data, error }\<close>. The error object carries
  its message and whether it is an instance of \<^verbatim>\<open>Error\<close>, which the
  \<^verbatim>\<open>catch\<close> block of \<^verbatim>\<open>fetchData\<close> tests.
\<close>

datatype PostgrestError = PostgrestError (instanceof_Error: bool) (message: string)

record 'a Response =
  data :: "'a option"
  error :: "PostgrestError option"

text \<open>What the store answers to a query of the dashboard.\<close>

record Backend =
  reports_response :: "query \<Rightarrow> Report list Response"
  infractions_response :: "query \<Rightarrow> Infraction list Response"

record DashState =
  reports :: "Report list"
  dash_infractions :: "Infraction list"
  loading :: bool
  dash_error :: "string option"
  selectedService :: string
  dateRange :: DateRange

text \<open>The \<^verbatim>\<open>catch\<close> and \<^verbatim>\<open>finally\<close> blocks of \<^verbatim>\<open>fetchData\<close> (lines 82-87).\<close>

definition fetch_failed :: "PostgrestError \<Rightarrow> DashState \<Rightarrow> DashState" where
  "fetch_failed err st =
     st\<lparr>dash_error := Some (if instanceof_Error err then message err
                             else ''Erro ao carregar dados''),
        loading := False\<rparr>"

text \<open>
  \<^verbatim>\<open>fetchData\<close> (lines 38-88): the state after the call and the queries
  sent to the store, in order.
\<close>

definition fetchData :: "Backend \<Rightarrow> DashState \<Rightarrow> DashState \<times> query list" where
  "fetchData backend st =
     (let st1 = st\<lparr>loading := True\<rparr>;
          rq = reportsQuery (selectedService st) (dateRange st);
          r = reports_response backend rq
      in case error r of
           Some reportsError \<Rightarrow> (fetch_failed reportsError st1, [rq])
         | None \<Rightarrow>
            (case data r of
               None \<Rightarrow> (st1\<lparr>loading := False\<rparr>, [rq])
             | Some reportsData \<Rightarrow>
                (let st2 = st1\<lparr>reports := reportsData\<rparr>;
                     reportUids = map the (filter (\<lambda>i. i \<noteq> None) (map id_field reportsData))
                 in if length reportUids > 0 then
                      (let q = infractionsQuery reportUids;
                           r2 = infractions_response backend q
                       in case error r2 of
                            Some infractionsError \<Rightarrow>
                              (fetch_failed infractionsError st2, [rq, q])
                          | None \<Rightarrow>
                             (case data r2 of
                                Some infractionsData \<Rightarrow>
                                  (st2\<lparr>dash_infractions := infractionsData, loading := False\<rparr>,
                                   [rq, q])
                              | None \<Rightarrow> (st2\<lparr>loading := False\<rparr>, [rq, q])))
                    else (st2\<lparr>dash_infractions := [], loading := False\<rparr>, [rq]))))"

subsection \<open>The store's reading of a query\<close>

text \<open>
  Modelled from the spec: the hosted store behind \<^verbatim>\<open>../supabase\<close>, an
  external service that is not among the sources. For the queries of the
  dashboard its contract (sections 4.2 and 6 of the specification) is: the
  rows of the table that satisfy every filter, in the requested order.
  Timestamps are compared as the store reads them: \<open>ts\<close> is the store's
  reading of a timestamp literal, into any linear order. A filter on a
  column or with an operator the dashboard never uses is refused.
\<close>

fun supported :: "filter_op \<Rightarrow> bool" where
  "supported (Eq c v) = (c = ''service_name'')"
| "supported (Gte c v) = (c = ''created_at'')"
| "supported (Lte c v) = (c = ''created_at'')"
| "supported (In c vs) = False"

fun satisfies :: "(string \<Rightarrow> 't::linorder) \<Rightarrow> 'a Report_scheme \<Rightarrow> filter_op \<Rightarrow> bool" where
  "satisfies ts r (Eq c v) = (service_name r = v)"
| "satisfies ts r (Gte c v) = (ts v \<le> ts (created_at r))"
| "satisfies ts r (Lte c v) = (ts (created_at r) \<le> ts v)"
| "satisfies ts r (In c vs) = False"

definition select_reports ::
    "(string \<Rightarrow> 't::linorder) \<Rightarrow> Report list \<Rightarrow> query \<Rightarrow> Report list Response" where
  "select_reports ts table q =
     (if q_from q = ''geotranote_reports'' \<and> list_all supported (q_filters q) \<and>
         q_order q \<in> {None, Some (''created_at'', True), Some (''created_at'', False)}
      then
        (let rows = filter (\<lambda>r. list_all (satisfies ts r) (q_filters q)) table;
             ascending = sort_key (\<lambda>r. ts (created_at r)) rows
         in \<lparr>data = Some (if q_order q = None then rows
                           else if q_order q = Some (''created_at'', True) then ascending
                           else rev ascending),
             error = None\<rparr>)
      else \<lparr>data = None, error = Some (PostgrestError False ''bad request'')\<rparr>)"

definition select_infractions :: "Infraction list \<Rightarrow> query \<Rightarrow> Infraction list Response" where
  "select_infractions table q =
     (case (q_from q = ''infractions'', q_filters q) of
        (True, [In c vs]) \<Rightarrow>
          (if c = ''report_uid''
           then \<lparr>data = Some (filter (\<lambda>i. report_uid i \<in> Some ` set vs) table), error = None\<rparr>
           else \<lparr>data = None, error = Some (PostgrestError False ''bad request'')\<rparr>)
      | _ \<Rightarrow> \<lparr>data = None, error = Some (PostgrestError False ''bad request'')\<rparr>)"

definition store_backend ::
    "(string \<Rightarrow> 't::linorder) \<Rightarrow> Report list \<Rightarrow> Infraction list \<Rightarrow> Backend" where
  "store_backend ts rtable itable =
     \<lparr>reports_response = select_reports ts rtable,
      infractions_response = select_infractions itable\<rparr>"

text \<open>
  What the query of lines 41-56 asks of the store, read off the filters the
  code adds: the service type unless the filter is \<^verbatim>\<open>all\<close>, the lower
  bound unless the start is empty, and the upper bound
  \<^verbatim>\<open>end + 'T23:59:59'\<close> unless the end is empty.
\<close>

definition requested ::
    "(string \<Rightarrow> 't::linorder) \<Rightarrow> string \<Rightarrow> DateRange \<Rightarrow> 'a Report_scheme \<Rightarrow> bool" where
  "requested ts selected dr r \<longleftrightarrow>
     (selected \<noteq> ''all'' \<longrightarrow> service_name r = selected) \<and>
     (start_date dr \<noteq> [] \<longrightarrow> ts (start_date dr) \<le> ts (created_at r)) \<and>
     (end_date dr \<noteq> [] \<longrightarrow> ts (created_at r) \<le> ts (end_date dr @ ''T23:59:59''))"

text \<open>
  Timestamps and dates are ISO 8601 text of one time zone,
  \<^verbatim>\<open>YYYY-MM-DDThh:mm:ss\<close> with an optional fraction of a second, and
  \<^verbatim>\<open>YYYY-MM-DD\<close>; the order of the text is the order in time, and the first
  ten characters of a timestamp are its calendar date.
\<close>

definition as_text :: "string \<Rightarrow> string" where
  "as_text s = s"

definition created_on :: "'a Report_scheme \<Rightarrow> string" where
  "created_on r = take 10 (created_at r)"

text \<open>
  The filter predicate in the words of the specification: the service type
  equals the filter unless the filter is \<^verbatim>\<open>all\<close>; the creation timestamp is
  not before the start date when one is given; and it lies within the end
  date up to the end of that day, that is, the report was created on the
  end date or on an earlier day, when one is given.
\<close>

definition matches :: "string \<Rightarrow> DateRange \<Rightarrow> 'a Report_scheme \<Rightarrow> bool" where
  "matches selected dr r \<longleftrightarrow>
     (selected = ''all'' \<or> service_name r = selected) \<and>
     (start_date dr = [] \<or> start_date dr \<le> created_at r) \<and>
     (end_date dr = [] \<or> created_on r \<le> end_date dr)"

definition newest_first :: "(string \<Rightarrow> 't::linorder) \<Rightarrow> 'a Report_scheme list \<Rightarrow> bool" where
  "newest_first ts rs = sorted_wrt (\<lambda>a b. ts (created_at b) \<le> ts (created_at a)) rs"

section \<open>The submission workflow (pages/Dashboard.tsx:297-409)\<close>

subsection \<open>The store as the form sees it\<close>

text \<open>
  The row the form inserts into \<^verbatim>\<open>geotranote_reports\<close>: the form's fields
  and the protocol number (lines 327-334 and 372-379).
\<close>

record ReportInsert = FormData +
  protocol_number :: string

text \<open>
  Modelled from the spec: the hosted store behind \<^verbatim>\<open>../supabase\<close>, an
  external service that is not among the sources; the form reaches it
  through three requests. Its contract (sections 3, 4.1 and 6 of the
  specification) is: a table is the list of its rows in insertion order,
  each under the identifier (\<^verbatim>\<open>uid\<close>) the store gave it. An insert gives
  every new row an identifier no row of the table has, and answers with the
  identifiers in the order of the rows sent; an upsert replaces the row
  that has the identifier, or adds the row when there is none. A request
  that fails changes nothing. Columns the form neither writes nor reads are
  left out.
\<close>

record Store =
  geotranote_reports :: "(uid \<times> ReportInsert) list"
  infractions_table :: "(uid \<times> FormInfraction) list"

definition fresh_uid :: "(uid \<times> 'r) list \<Rightarrow> uid" where
  "fresh_uid table = Suc (fold max (map fst table) 0)"

definition insert_row :: "'r \<Rightarrow> (uid \<times> 'r) list \<Rightarrow> uid \<times> (uid \<times> 'r) list" where
  "insert_row row table = (fresh_uid table, table @ [(fresh_uid table, row)])"

fun insert_rows :: "'r list \<Rightarrow> (uid \<times> 'r) list \<Rightarrow> uid list \<times> (uid \<times> 'r) list" where
  "insert_rows [] table = ([], table)"
| "insert_rows (row # rows) table =
     (let (u, table1) = insert_row row table;
          (us, table2) = insert_rows rows table1
      in (u # us, table2))"

fun upsert_row :: "uid \<times> 'r \<Rightarrow> (uid \<times> 'r) list \<Rightarrow> (uid \<times> 'r) list" where
  "upsert_row (k, v) [] = [(k, v)]"
| "upsert_row (k, v) ((k', v') # table) =
     (if k' = k then (k, v) # table else (k', v') # upsert_row (k, v) table)"

definition upsert_rows :: "(uid \<times> 'r) list \<Rightarrow> (uid \<times> 'r) list \<Rightarrow> (uid \<times> 'r) list" where
  "upsert_rows rows table = fold upsert_row rows table"

text \<open>
  The effects of a submission outside the component, in the order in which
  they happen: a call of \<^verbatim>\<open>nanoid()\<close> with the token it returned, a request
  sent to the store with the error it was answered with (if any), and an
  \<^verbatim>\<open>alert\<close> shown to the user. Console output is left out.
\<close>

datatype request =
    InsertInfractions "FormInfraction list"
  | InsertReport ReportInsert
  | UpsertInfractions "(uid \<times> FormInfraction) list"

datatype event =
    Nanoid string
  | Sent request "PostgrestError option"
  | Alert string

text \<open>
  What the code does not decide is a parameter: the token the \<open>n\<close>-th
  call of \<^verbatim>\<open>nanoid()\<close> returns (the generator is a library, and random),
  and the error, if any, with which the store answers the \<open>n\<close>-th request
  it receives. The world is the store, the trace, and the two counts.
\<close>

record Env =
  nanoid_token :: "nat \<Rightarrow> string"
  fault :: "nat \<Rightarrow> PostgrestError option"

record World =
  store :: Store
  trace :: "event list"
  draws :: nat
  requests :: nat

definition nanoid :: "Env \<Rightarrow> World \<Rightarrow> string \<times> World" where
  "nanoid env w =
     (let p = nanoid_token env (draws w)
      in (p, w\<lparr>trace := trace w @ [Nanoid p], draws := Suc (draws w)\<rparr>))"

text \<open>Sending a request: the store's verdict, recorded in the trace.\<close>

definition send :: "Env \<Rightarrow> request \<Rightarrow> World \<Rightarrow> PostgrestError option \<times> World" where
  "send env req w =
     (let e = fault env (requests w)
      in (e, w\<lparr>trace := trace w @ [Sent req e], requests := Suc (requests w)\<rparr>))"

text \<open>\<^verbatim>\<open>from('infractions').insert(rows).select('uid')\<close>.\<close>

definition insert_infractions ::
    "Env \<Rightarrow> FormInfraction list \<Rightarrow> World \<Rightarrow> uid list Response \<times> World" where
  "insert_infractions env rows w =
     (let (e, w1) = send env (InsertInfractions rows) w
      in case e of
           Some err \<Rightarrow> (\<lparr>data = None, error = Some err\<rparr>, w1)
         | None \<Rightarrow>
            (let (uids, table) = insert_rows rows (infractions_table (store w1))
             in (\<lparr>data = Some uids, error = None\<rparr>,
                 w1\<lparr>store := (store w1)\<lparr>infractions_table := table\<rparr>\<rparr>)))"

text \<open>\<^verbatim>\<open>from('geotranote_reports').insert([row]).select('uid').single()\<close>.\<close>

definition insert_report :: "Env \<Rightarrow> ReportInsert \<Rightarrow> World \<Rightarrow> uid Response \<times> World" where
  "insert_report env row w =
     (let (e, w1) = send env (InsertReport row) w
      in case e of
           Some err \<Rightarrow> (\<lparr>data = None, error = Some err\<rparr>, w1)
         | None \<Rightarrow>
            (let (u, table) = insert_row row (geotranote_reports (store w1))
             in (\<lparr>data = Some u, error = None\<rparr>,
                 w1\<lparr>store := (store w1)\<lparr>geotranote_reports := table\<rparr>\<rparr>)))"

text \<open>\<^verbatim>\<open>from('infractions').upsert(rows)\<close>; without a select the data is \<^verbatim>\<open>null\<close>.\<close>

definition upsert_infractions ::
    "Env \<Rightarrow> (uid \<times> FormInfraction) list \<Rightarrow> World \<Rightarrow> unit Response \<times> World" where
  "upsert_infractions env rows w =
     (let (e, w1) = send env (UpsertInfractions rows) w
      in case e of
           Some err \<Rightarrow> (\<lparr>data = None, error = Some err\<rparr>, w1)
         | None \<Rightarrow>
            (\<lparr>data = None, error = None\<rparr>,
             w1\<lparr>store := (store w1)\<lparr>infractions_table :=
                   upsert_rows rows (infractions_table (store w1))\<rparr>\<rparr>))"

subsection \<open>\<^verbatim>\<open>handleSubmit\<close>\<close>

text \<open>The messages of the form; the accented letters are single code units.\<close>

definition msg_save_data :: string where
  "msg_save_data = ''Erro ao salvar os dados. Por favor, tente novamente.''"

definition msg_save_form :: string where
  "msg_save_form = ''Erro ao salvar o formul'' @ [CHR 0xE1] @ ''rio.''"

definition msg_update_infractions :: string where
  "msg_update_infractions = ''Erro ao atualizar as infra'' @ [CHR 0xE7, CHR 0xF5] @ ''es.''"

definition msg_saved :: "string \<Rightarrow> string" where
  "msg_saved p =
     ''Formul'' @ [CHR 0xE1] @ ''rio salvo com sucesso! N'' @ [CHR 0xFA] @
     ''mero de protocolo: '' @ p"

text \<open>Lines 308-311: the rows of the batch insert carry type and quantity only.\<close>

definition infractionData :: "FormInfraction list \<Rightarrow> FormInfraction list" where
  "infractionData infs =
     map (\<lambda>infraction. \<lparr>quantity = quantity infraction, report_uid = None,
                         infraction_type = infraction_type infraction\<rparr>) infs"

text \<open>
  Lines 349-354: the rows of the upsert, paired with the pending entries by
  index. \<^verbatim>\<open>infractions[index]\<close> beyond the end of the list is \<^verbatim>\<open>undefined\<close>
  and reading its field throws a \<^verbatim>\<open>TypeError\<close>: the result is \<^const>\<open>None\<close>.
\<close>

definition updatedInfractions ::
    "uid list \<Rightarrow> uid \<Rightarrow> FormInfraction list \<Rightarrow> (uid \<times> FormInfraction) list option" where
  "updatedInfractions insertedInfractions reportUid infs =
     (if length insertedInfractions \<le> length infs then
        Some (map (\<lambda>index. (insertedInfractions ! index,
                             \<lparr>quantity = quantity (infs ! index), report_uid = Some reportUid,
                              infraction_type = infraction_type (infs ! index)\<rparr>))
                  [0 ..< length insertedInfractions])
      else None)"

text \<open>Lines 327-334 and 372-379: the row of the report insert.\<close>

definition newReport :: "FormData \<Rightarrow> string \<Rightarrow> ReportInsert" where
  "newReport fd newProtocolNumber =
     \<lparr>service_name = service_name fd, sector = sector fd, car_removals = car_removals fd,
      motorcycle_removals = motorcycle_removals fd, total_approaches = total_approaches fd,
      protocol_number = newProtocolNumber\<rparr>"

text \<open>Lines 394-404: the end of a successful submission.\<close>

definition submitted :: "string \<Rightarrow> FormState \<Rightarrow> World \<Rightarrow> FormState \<times> World" where
  "submitted newProtocolNumber ui w =
     (ui\<lparr>protocolNumber := Some newProtocolNumber, formData := default_formData,
         infractions := []\<rparr>,
      w\<lparr>trace := trace w @ [Alert (msg_saved newProtocolNumber)]\<rparr>)"

text \<open>
  \<^verbatim>\<open>handleSubmit\<close>: the state of the form and the world after the call. The
  handler reads \<^verbatim>\<open>formData\<close> and \<^verbatim>\<open>infractions\<close> as they were when it was
  created; the \<^verbatim>\<open>catch\<close> block (lines 405-408) sets \<^const>\<open>msg_save_data\<close>.
\<close>

definition handleSubmit :: "Env \<Rightarrow> FormState \<Rightarrow> World \<Rightarrow> FormState \<times> World" where
  "handleSubmit env ui w =
     (let ui1 = ui\<lparr>formError := None, protocolNumber := None\<rparr>;
          (newProtocolNumber, w1) = nanoid env w
      in if length (infractions ui) > 0 then
           (let (r1, w2) = insert_infractions env (infractionData (infractions ui)) w1
            in case error r1 of
                 Some infractionsError \<Rightarrow> (ui1\<lparr>formError := Some msg_save_data\<rparr>, w2)
               | None \<Rightarrow>
                  (let (r2, w3) = insert_report env (newReport (formData ui) newProtocolNumber) w2
                   in case error r2 of
                        Some reportError \<Rightarrow> (ui1\<lparr>formError := Some msg_save_form\<rparr>, w3)
                      | None \<Rightarrow>
                         (case (data r2, data r1) of
                            (Some reportData, Some insertedInfractions) \<Rightarrow>
                              (case updatedInfractions insertedInfractions reportData
                                      (infractions ui) of
                                 None \<Rightarrow> (ui1\<lparr>formError := Some msg_save_data\<rparr>, w3)
                               | Some rows \<Rightarrow>
                                  (let (r3, w4) = upsert_infractions env rows w3
                                   in case error r3 of
                                        Some updateError \<Rightarrow>
                                          (ui1\<lparr>formError := Some msg_update_infractions\<rparr>, w4)
                                      | None \<Rightarrow> submitted newProtocolNumber ui1 w4))
                          | _ \<Rightarrow> submitted newProtocolNumber ui1 w3)))
         else
           (let (r2, w2) = insert_report env (newReport (formData ui) newProtocolNumber) w1
            in case error r2 of
                 Some reportError \<Rightarrow> (ui1\<lparr>formError := Some msg_save_form\<rparr>, w2)
               | None \<Rightarrow> submitted newProtocolNumber ui1 w2))"

text \<open>
  Repeated submissions: each starts from the form as the user has filled it
  in and from the world the previous one left; the result is the protocol
  number shown after each.
\<close>

fun submit_each :: "Env \<Rightarrow> FormState list \<Rightarrow> World \<Rightarrow> string option list" where
  "submit_each env [] w = []"
| "submit_each env (ui # uis) w =
     (let (ui', w') = handleSubmit env ui w
      in protocolNumber ui' # submit_each env uis w')"

text \<open>The row of a pending entry once it is bound to a report.\<close>

definition bound_to :: "uid \<Rightarrow> FormInfraction \<Rightarrow> FormInfraction" where
  "bound_to r infraction =
     \<lparr>quantity = quantity infraction, report_uid = Some r,
      infraction_type = infraction_type infraction\<rparr>"

text \<open>The effects a submission added to the trace.\<close>

definition new_events :: "World \<Rightarrow> World \<Rightarrow> event list" where
  "new_events w w' = drop (length (trace w)) (trace w')"

text \<open>The protocol numbers shown to the user over repeated submissions.\<close>

definition protocol_numbers :: "Env \<Rightarrow> FormState list \<Rightarrow> World \<Rightarrow> string list" where
  "protocol_numbers env uis w = map the (filter (\<lambda>p. p \<noteq> None) (submit_each env uis w))"

section \<open>Example inputs\<close>

text \<open>
  The scenarios of the specification: a form with service type
  \<^verbatim>\<open>ordinario\<close>, the first sector, 2 cars, 1 motorcycle, 5 approaches and the
  pending entry \<^verbatim>\<open>{ X, 3 }\<close>; an empty store; a store that answers every
  request, and one that fails its \<open>k\<close>-th; three reports of a table; a
  report created in the last second of a day; reports with counts beyond
  the safe range; and a generator that repeats its token.
\<close>

definition scenario_form :: FormState where
  "scenario_form =
     \<lparr>formData = \<lparr>service_name = ''ordinario'', sector = default_sector, car_removals = 2,
                  motorcycle_removals = 1, total_approaches = 5\<rparr>,
      infractions = [\<lparr>quantity = 3, report_uid = None, infraction_type = ''X''\<rparr>],
      isSidebarOpen = False, selectedInfraction = [], quantity_input = 1, searchTerm = [],
      isDropdownOpen = False, formError = None, protocolNumber = None, supabaseError = None\<rparr>"

definition empty_world :: World where
  "empty_world =
     \<lparr>store = \<lparr>geotranote_reports = [], infractions_table = []\<rparr>, trace = [], draws = 0,
      requests = 0\<rparr>"

definition tokens :: "nat \<Rightarrow> string" where
  "tokens n = replicate (Suc n) CHR ''p''"

definition timeout :: PostgrestError where
  "timeout = PostgrestError False ''timeout''"

definition failing_at :: "nat \<Rightarrow> Env" where
  "failing_at k = \<lparr>nanoid_token = tokens, fault = (\<lambda>n. if n = k then Some timeout else None)\<rparr>"

definition reliable :: Env where
  "reliable = \<lparr>nanoid_token = tokens, fault = (\<lambda>n. None)\<rparr>"

definition report_a :: Report where
  "report_a = \<lparr>service_name = ''ordinario'', sector = ''A'', car_removals = 2,
     motorcycle_removals = 1, total_approaches = 5, id_field = Some 1,
     responsible_name = ''Ana'', created_at = ''2024-03-01T10:00:00''\<rparr>"

definition report_b :: Report where
  "report_b = \<lparr>service_name = ''ordinario'', sector = ''B'', car_removals = 0,
     motorcycle_removals = 3, total_approaches = 4, id_field = Some 2,
     responsible_name = ''Bia'', created_at = ''2024-03-02T23:59:59''\<rparr>"

definition report_c :: Report where
  "report_c = \<lparr>service_name = ''ras'', sector = ''B'', car_removals = 1,
     motorcycle_removals = 1, total_approaches = 1, id_field = Some 3,
     responsible_name = ''Caio'', created_at = ''2024-03-02T08:00:00''\<rparr>"

definition late_report :: Report where
  "late_report = report_b\<lparr>id_field := Some 5, created_at := ''2024-03-02T23:59:59.500''\<rparr>"

definition until_march_2 :: DashState where
  "until_march_2 = \<lparr>reports = [], dash_infractions = [], loading = False, dash_error = None,
     selectedService = ''all'', dateRange = \<lparr>start_date = [], end_date = ''2024-03-02''\<rparr>\<rparr>"


definition big_reports :: "Report list" where
  "big_reports =
     [report_a\<lparr>car_removals := 9007199254740992, motorcycle_removals := 1\<rparr>,
      report_b\<lparr>car_removals := 0, motorcycle_removals := 1\<rparr>]"

definition march_view :: DashState where
  "march_view = \<lparr>reports = [], dash_infractions = [\<lparr>quantity = 7, report_uid = Some 9\<rparr>],
     loading = False, dash_error = None, selectedService = ''ordinario'',
     dateRange = \<lparr>start_date = ''2024-03-01'', end_date = ''2024-03-02''\<rparr>\<rparr>"

definition adding :: FormState where
  "adding = scenario_form\<lparr>selectedInfraction := ''Y'', searchTerm := ''Y'', quantity_input := 2\<rparr>"

section \<open>Routing: properties\<close>

text \<open>
  C9. Without a session the dashboard and form routes render a redirect to
  the login view; with a session the login route renders a redirect to the
  default route \<^verbatim>\<open>/\<close>.
\<close>

theorem route_redirects:
  "route None ''/dashboard'' = Some (Navigate ''/login'') \<and>
   route None ''/form'' = Some (Navigate ''/login'') \<and>
   route (Some s) ''/login'' = Some (Navigate ''/'')"
  by (simp add: route_def)

section \<open>The pending list: properties\<close>

text \<open>
  C10. An entry is appended to the pending list only when an infraction
  type is selected and the quantity is positive; then the entry goes to the
  end of the list, the earlier entries stay as they are, and the selected
  infraction, the search term and the quantity are reset to empty, empty
  and 1.
\<close>

theorem handleAddInfraction_spec:
  "(infractions (handleAddInfraction st) \<noteq> infractions st \<longrightarrow>
      selectedInfraction st \<noteq> [] \<and> 0 < quantity_input st) \<and>
   (selectedInfraction st \<noteq> [] \<and> 0 < quantity_input st \<longrightarrow>
      infractions (handleAddInfraction st) =
        infractions st @ [\<lparr>quantity = quantity_input st, report_uid = None,
                           infraction_type = selectedInfraction st\<rparr>] \<and>
      selectedInfraction (handleAddInfraction st) = [] \<and>
      searchTerm (handleAddInfraction st) = [] \<and>
      quantity_input (handleAddInfraction st) = 1)"
  by (simp add: handleAddInfraction_def)

theorem handleAddInfraction_spec_witness:
  "infractions (handleAddInfraction adding) \<noteq> infractions adding \<and>
   selectedInfraction adding \<noteq> [] \<and> 0 < quantity_input adding \<and>
   infractions (handleAddInfraction adding) =
     [\<lparr>quantity = 3, report_uid = None, infraction_type = ''X''\<rparr>,
      \<lparr>quantity = 2, report_uid = None, infraction_type = ''Y''\<rparr>] \<and>
   selectedInfraction (handleAddInfraction adding) = [] \<and>
   searchTerm (handleAddInfraction adding) = [] \<and>
   quantity_input (handleAddInfraction adding) = 1"
proof -
  have h: "selectedInfraction adding \<noteq> [] \<and> 0 < quantity_input adding"
    by (simp add: adding_def)
  have i: "infractions adding = [\<lparr>quantity = 3, report_uid = None, infraction_type = ''X''\<rparr>]"
    "quantity_input adding = 2" "selectedInfraction adding = ''Y''"
    by (simp_all add: adding_def scenario_form_def)
  from handleAddInfraction_spec [of adding] h show ?thesis
    by (simp add: i)
qed

section \<open>Aggregation: properties\<close>

subsection \<open>Sums within the safe range are exact\<close>

lemma js_plus_safe: "\<bar>a + b\<bar> \<le> MAX_SAFE_INTEGER \<Longrightarrow> js_plus a b = a + b"
  by (simp add: js_plus_def round_double_def MAX_SAFE_INTEGER_def)

lemma sum_list_abs_nonneg: "0 \<le> sum_list (map (\<lambda>x. \<bar>f x :: int\<bar>) xs)"
  by (induction xs) simp_all

lemma sum_list_abs_filter:
  "\<bar>sum_list (map f (filter P xs))\<bar> \<le> sum_list (map (\<lambda>x. \<bar>f x :: int\<bar>) xs)"
  by (induction xs) auto

lemma sum_list_le:
  "(\<And>x. x \<in> set xs \<Longrightarrow> f x \<le> (g x :: int)) \<Longrightarrow> sum_list (map f xs) \<le> sum_list (map g xs)"
  by (induction xs) (auto intro: add_mono)

lemma foldl_js_plus:
  "\<bar>a\<bar> + sum_list (map (\<lambda>x. \<bar>f x\<bar>) xs) \<le> MAX_SAFE_INTEGER \<Longrightarrow>
   foldl (\<lambda>s x. js_plus s (f x)) a xs = a + sum_list (map f xs)"
proof (induction xs arbitrary: a)
  case Nil
  show ?case by simp
next
  case (Cons x xs)
  have rest: "0 \<le> sum_list (map (\<lambda>x. \<bar>f x\<bar>) xs)"
    by (rule sum_list_abs_nonneg)
  with Cons.prems have "\<bar>a + f x\<bar> \<le> MAX_SAFE_INTEGER"
    by simp
  then have step: "js_plus a (f x) = a + f x"
    by (rule js_plus_safe)
  from Cons.prems have "\<bar>a + f x\<bar> + sum_list (map (\<lambda>x. \<bar>f x\<bar>) xs) \<le> MAX_SAFE_INTEGER"
    by simp
  from Cons.IH [OF this] step show ?case
    by simp
qed

lemma foldl_js_plus_two:
  "\<bar>a\<bar> + sum_list (map (\<lambda>x. \<bar>f x\<bar> + \<bar>g x\<bar>) xs) \<le> MAX_SAFE_INTEGER \<Longrightarrow>
   foldl (\<lambda>s x. js_plus (js_plus s (f x)) (g x)) a xs = a + sum_list (map (\<lambda>x. f x + g x) xs)"
proof (induction xs arbitrary: a)
  case Nil
  show ?case by simp
next
  case (Cons x xs)
  have rest: "0 \<le> sum_list (map (\<lambda>x. \<bar>\<bar>f x\<bar> + \<bar>g x\<bar>\<bar>) xs)"
    by (rule sum_list_abs_nonneg)
  with Cons.prems have "\<bar>a + f x\<bar> \<le> MAX_SAFE_INTEGER" and "\<bar>a + f x + g x\<bar> \<le> MAX_SAFE_INTEGER"
    by simp_all
  then have step: "js_plus (js_plus a (f x)) (g x) = a + f x + g x"
    by (simp add: js_plus_safe)
  from Cons.prems
  have "\<bar>a + f x + g x\<bar> + sum_list (map (\<lambda>x. \<bar>f x\<bar> + \<bar>g x\<bar>) xs) \<le> MAX_SAFE_INTEGER"
    by simp
  from Cons.IH [OF this] step show ?case
    by simp
qed

lemma safe_sum_snoc: "safe_sum f (xs @ [x]) \<Longrightarrow> safe_sum f xs"
  by (simp add: safe_sum_def)

subsection \<open>Groups in the order of first occurrence\<close>

lemma set_first_seen [simp]: "set (first_seen xs) = set xs"
  by (induction xs) auto

lemma distinct_first_seen [simp]: "distinct (first_seen xs)"
  by (induction xs) auto

lemma first_seen_snoc:
  "first_seen (xs @ [x]) = (if x \<in> set xs then first_seen xs else first_seen xs @ [x])"
  by (induction xs) auto

lemma find_map_key:
  assumes "\<And>n. key (g n) = n"
  shows "find (\<lambda>item. key item = k) (map g ns) = (if k \<in> set ns then Some (g k) else None)"
  using assms by (induction ns) auto

lemma update_first_map_key:
  assumes "\<And>n. key (g n) = n" and "distinct ns"
  shows "update_first (\<lambda>item. key item = k) f (map g ns) =
         map (\<lambda>n. if n = k then f (g n) else g n) ns"
  using assms by (induction ns) auto

lemma serviceTypeData_snoc:
  "serviceTypeData (rs @ [r]) = serviceTypeStep (serviceTypeData rs) r"
  by (simp add: serviceTypeData_def)

lemma serviceTypeData_closed:
  "int (length rs) \<le> MAX_SAFE_INTEGER \<Longrightarrow>
   serviceTypeData rs = map (service_entry rs) (first_seen (map service_name rs))"
proof (induction rs rule: rev_induct)
  case Nil
  show ?case by (simp add: serviceTypeData_def)
next
  case (snoc r rs)
  let ?ns = "first_seen (map service_name rs)"
  have key: "\<And>n. sc_name (service_entry rs n) = n" by (simp add: service_entry_def)
  from snoc.prems have ih: "serviceTypeData rs = map (service_entry rs) ?ns"
    by (intro snoc.IH) simp
  have incr: "js_plus (int (count_list (map service_name rs) n)) 1 =
      int (count_list (map service_name rs) n) + 1" for n
  proof -
    have "int (count_list (map service_name rs) n) \<le> int (length rs)"
      using count_le_length [of "map service_name rs" n] by simp
    with snoc.prems have "\<bar>int (count_list (map service_name rs) n) + 1\<bar> \<le> MAX_SAFE_INTEGER"
      by simp
    then show ?thesis by (rule js_plus_safe)
  qed
  show ?case
  proof (cases "service_name r \<in> set (map service_name rs)")
    case True
    then have "serviceTypeStep (map (service_entry rs) ?ns) r =
               map (\<lambda>n. if n = service_name r
                         then (service_entry rs n)
                                \<lparr>sc_value := js_plus (sc_value (service_entry rs n)) 1\<rparr>
                         else service_entry rs n) ?ns"
      unfolding serviceTypeStep_def
      by (simp add: find_map_key [where key = sc_name, OF key]
                    update_first_map_key [where key = sc_name, OF key])
    also have "\<dots> = map (service_entry (rs @ [r])) ?ns"
      by (rule map_cong) (auto simp: service_entry_def incr)
    finally show ?thesis
      using True ih by (simp add: serviceTypeData_snoc first_seen_snoc)
  next
    case False
    then have "serviceTypeStep (map (service_entry rs) ?ns) r =
               map (service_entry rs) ?ns @ [\<lparr>sc_name = service_name r, sc_value = 1\<rparr>]"
      unfolding serviceTypeStep_def
      by (simp add: find_map_key [where key = sc_name, OF key])
    also have "\<dots> = map (service_entry (rs @ [r])) (?ns @ [service_name r])"
      using False by (auto simp: service_entry_def)
    finally show ?thesis
      using False ih by (simp add: serviceTypeData_snoc first_seen_snoc)
  qed
qed

lemma removalsBySector_snoc:
  "removalsBySector (rs @ [r]) = removalsStep (removalsBySector rs) r"
  by (simp add: removalsBySector_def)

lemma removalsBySector_closed:
  "safe_sum (\<lambda>r. \<bar>car_removals r\<bar> + \<bar>motorcycle_removals r\<bar>) rs \<Longrightarrow>
   removalsBySector rs = map (sector_entry rs) (first_seen (map sector rs))"
proof (induction rs rule: rev_induct)
  case Nil
  show ?case by (simp add: removalsBySector_def)
next
  case (snoc r rs)
  let ?ns = "first_seen (map sector rs)"
  have key: "\<And>n. sr_sector (sector_entry rs n) = n" by (simp add: sector_entry_def)
  from snoc.prems have ih: "removalsBySector rs = map (sector_entry rs) ?ns"
    by (intro snoc.IH) (rule safe_sum_snoc)
  from snoc.prems
  have total: "sum_list (map (\<lambda>r. \<bar>car_removals r\<bar> + \<bar>motorcycle_removals r\<bar>) rs) +
      (\<bar>car_removals r\<bar> + \<bar>motorcycle_removals r\<bar>) \<le> MAX_SAFE_INTEGER"
    by (simp add: safe_sum_def)
  have c_le: "sum_list (map (\<lambda>r. \<bar>car_removals r\<bar>) rs) \<le>
      sum_list (map (\<lambda>r. \<bar>car_removals r\<bar> + \<bar>motorcycle_removals r\<bar>) rs)"
    and m_le: "sum_list (map (\<lambda>r. \<bar>motorcycle_removals r\<bar>) rs) \<le>
      sum_list (map (\<lambda>r. \<bar>car_removals r\<bar> + \<bar>motorcycle_removals r\<bar>) rs)"
    by (rule sum_list_le, simp)+
  have cars: "js_plus (sum_list (map car_removals (in_sector n rs))) (car_removals r) =
      sum_list (map car_removals (in_sector n rs)) + car_removals r" for n
    using sum_list_abs_filter [of car_removals "\<lambda>r. sector r = n" rs] c_le total
    by (intro js_plus_safe) (simp add: in_sector_def)
  have motos: "js_plus (sum_list (map motorcycle_removals (in_sector n rs))) (motorcycle_removals r) =
      sum_list (map motorcycle_removals (in_sector n rs)) + motorcycle_removals r" for n
    using sum_list_abs_filter [of motorcycle_removals "\<lambda>r. sector r = n" rs] m_le total
    by (intro js_plus_safe) (simp add: in_sector_def)
  show ?case
  proof (cases "sector r \<in> set (map sector rs)")
    case True
    then have "removalsStep (map (sector_entry rs) ?ns) r =
               map (\<lambda>n. if n = sector r
                         then (sector_entry rs n)
                                \<lparr>sr_cars := js_plus (sr_cars (sector_entry rs n)) (car_removals r),
                                 sr_motorcycles :=
                                   js_plus (sr_motorcycles (sector_entry rs n))
                                     (motorcycle_removals r)\<rparr>
                         else sector_entry rs n) ?ns"
      unfolding removalsStep_def
      by (simp add: find_map_key [where key = sr_sector, OF key]
                    update_first_map_key [where key = sr_sector, OF key])
    also have "\<dots> = map (sector_entry (rs @ [r])) ?ns"
      by (rule map_cong) (auto simp: sector_entry_def cars motos, auto simp: in_sector_def)
    finally show ?thesis
      using True ih by (simp add: removalsBySector_snoc first_seen_snoc)
  next
    case False
    have none: "in_sector (sector r) rs = []"
      using False by (force simp: in_sector_def filter_empty_conv image_iff)
    from False have "removalsStep (map (sector_entry rs) ?ns) r =
               map (sector_entry rs) ?ns @
               [\<lparr>sr_sector = sector r, sr_cars = car_removals r,
                 sr_motorcycles = motorcycle_removals r\<rparr>]"
      unfolding removalsStep_def
      by (simp add: find_map_key [where key = sr_sector, OF key])
    also have "\<dots> = map (sector_entry (rs @ [r])) (?ns @ [sector r])"
      using False none by (auto simp: sector_entry_def in_sector_def)
    finally show ?thesis
      using False ih by (simp add: removalsBySector_snoc first_seen_snoc)
  qed
qed

subsection \<open>The aggregates\<close>

text \<open>
  C4, as stated, fails beyond the safe range: with a report of \<open>2^53\<close> cars
  and one motorcycle followed by a report of one motorcycle, the running
  sum stays at \<open>2^53\<close>, while the removals add up to \<open>2^53 + 2\<close>.
\<close>

theorem aggregates_beyond_safe_range:
  "totalRemovals big_reports = 9007199254740992 \<and>
   sum_list (map car_removals big_reports) + sum_list (map motorcycle_removals big_reports) =
     9007199254740994"
  by code_simp

text \<open>
  C4, amended. When the counts are integers and each summed column is safe
  (approaches; cars and motorcycles together; quantities) and the reports
  are at most \<^verbatim>\<open>Number.MAX_SAFE_INTEGER\<close> many, the aggregates equal their
  reference definitions: each total is the sum of its column over the
  reports (the removals the sum of cars plus motorcycles), the total of
  infractions is the sum of the quantities, the distribution lists each
  service type once, in the order of first occurrence, with the number of
  its reports, and the breakdown lists each sector once, in the order of
  first occurrence, with its sums of cars and motorcycles. The aggregates
  are functions of the two lists alone.
\<close>

theorem aggregates_spec:
  assumes "safe_sum total_approaches rs"
    and "safe_sum (\<lambda>r. \<bar>car_removals r\<bar> + \<bar>motorcycle_removals r\<bar>) rs"
    and "safe_sum quantity infs"
    and "int (length rs) \<le> MAX_SAFE_INTEGER"
  shows
  "totalApproaches rs = sum_list (map total_approaches rs) \<and>
   totalRemovals rs = sum_list (map (\<lambda>r. car_removals r + motorcycle_removals r) rs) \<and>
   totalRemovals rs = sum_list (map car_removals rs) + sum_list (map motorcycle_removals rs) \<and>
   totalCarRemovals rs = sum_list (map car_removals rs) \<and>
   totalMotorcycleRemovals rs = sum_list (map motorcycle_removals rs) \<and>
   totalInfractions infs = sum_list (map quantity infs) \<and>
   serviceTypeData rs = map (service_entry rs) (first_seen (map service_name rs)) \<and>
   removalsBySector rs = map (sector_entry rs) (first_seen (map sector rs))"
proof -
  from assms(2)
  have both: "sum_list (map (\<lambda>r. \<bar>car_removals r\<bar> + \<bar>motorcycle_removals r\<bar>) rs)
      \<le> MAX_SAFE_INTEGER"
    by (simp add: safe_sum_def)
  have "sum_list (map (\<lambda>r. \<bar>car_removals r\<bar>) rs) \<le>
      sum_list (map (\<lambda>r. \<bar>car_removals r\<bar> + \<bar>motorcycle_removals r\<bar>) rs)"
    and "sum_list (map (\<lambda>r. \<bar>motorcycle_removals r\<bar>) rs) \<le>
      sum_list (map (\<lambda>r. \<bar>car_removals r\<bar> + \<bar>motorcycle_removals r\<bar>) rs)"
    by (rule sum_list_le, simp)+
  with both have cars: "sum_list (map (\<lambda>r. \<bar>car_removals r\<bar>) rs) \<le> MAX_SAFE_INTEGER"
    and motos: "sum_list (map (\<lambda>r. \<bar>motorcycle_removals r\<bar>) rs) \<le> MAX_SAFE_INTEGER"
    by simp_all
  have a: "totalApproaches rs = sum_list (map total_approaches rs)"
    using assms(1) foldl_js_plus [of 0 total_approaches rs]
    by (simp add: totalApproaches_def safe_sum_def)
  have r: "totalRemovals rs = sum_list (map (\<lambda>r. car_removals r + motorcycle_removals r) rs)"
    using both foldl_js_plus_two [of 0 car_removals motorcycle_removals rs]
    by (simp add: totalRemovals_def)
  have split: "sum_list (map (\<lambda>r. car_removals r + motorcycle_removals r) rs) =
      sum_list (map car_removals rs) + sum_list (map motorcycle_removals rs)"
    by (induction rs) simp_all
  have c: "totalCarRemovals rs = sum_list (map car_removals rs)"
    using cars foldl_js_plus [of 0 car_removals rs]
    by (simp add: totalCarRemovals_def)
  have m: "totalMotorcycleRemovals rs = sum_list (map motorcycle_removals rs)"
    using motos foldl_js_plus [of 0 motorcycle_removals rs]
    by (simp add: totalMotorcycleRemovals_def)
  have i: "totalInfractions infs = sum_list (map quantity infs)"
    using assms(3) foldl_js_plus [of 0 quantity infs]
    by (simp add: totalInfractions_def safe_sum_def)
  from a r split c m i serviceTypeData_closed [OF assms(4)] removalsBySector_closed [OF assms(2)]
  show ?thesis by simp
qed

theorem aggregates_spec_witness:
  "safe_sum total_approaches [report_a, report_c, report_b] \<and>
   safe_sum (\<lambda>r. \<bar>car_removals r\<bar> + \<bar>motorcycle_removals r\<bar>) [report_a, report_c, report_b] \<and>
   safe_sum quantity
     [\<lparr>quantity = 3, report_uid = Some 1\<rparr>, \<lparr>quantity = 4, report_uid = Some 2\<rparr>] \<and>
   int (length [report_a, report_c, report_b]) \<le> MAX_SAFE_INTEGER \<and>
   totalRemovals [report_a, report_c, report_b] = 8 \<and>
   totalInfractions [\<lparr>quantity = 3, report_uid = Some 1\<rparr>, \<lparr>quantity = 4, report_uid = Some 2\<rparr>] = 7 \<and>
   removalsBySector [report_a, report_c, report_b] =
     [\<lparr>sr_sector = ''A'', sr_cars = 2, sr_motorcycles = 1\<rparr>,
      \<lparr>sr_sector = ''B'', sr_cars = 1, sr_motorcycles = 4\<rparr>] \<and>
   serviceTypeData [report_a, report_c, report_b] =
     [\<lparr>sc_name = ''ordinario'', sc_value = 2\<rparr>, \<lparr>sc_name = ''ras'', sc_value = 1\<rparr>]"
proof -
  let ?rs = "[report_a, report_c, report_b]"
  let ?infs = "[\<lparr>quantity = 3, report_uid = Some 1\<rparr>, \<lparr>quantity = 4, report_uid = Some 2\<rparr>]"
  have cols: "sector report_a = ''A''" "sector report_b = ''B''" "sector report_c = ''B''"
    "car_removals report_a = 2" "car_removals report_b = 0" "car_removals report_c = 1"
    "motorcycle_removals report_a = 1" "motorcycle_removals report_b = 3"
    "motorcycle_removals report_c = 1"
    "total_approaches report_a = 5" "total_approaches report_b = 4"
    "total_approaches report_c = 1"
    "service_name report_a = ''ordinario''" "service_name report_b = ''ordinario''"
    "service_name report_c = ''ras''"
    by (simp_all add: report_a_def report_b_def report_c_def)
  have h1: "safe_sum total_approaches ?rs"
    and h2: "safe_sum (\<lambda>r. \<bar>car_removals r\<bar> + \<bar>motorcycle_removals r\<bar>) ?rs"
    and h3: "safe_sum quantity ?infs"
    and h4: "int (length ?rs) \<le> MAX_SAFE_INTEGER"
    by (simp_all add: safe_sum_def MAX_SAFE_INTEGER_def cols)
  from aggregates_spec [OF h1 h2 h3 h4] h1 h2 h3 h4 show ?thesis
    by (simp add: cols sector_entry_def service_entry_def in_sector_def)
qed

section \<open>The read path: properties\<close>

lemma newest_first_rev_sort:
  "newest_first ts (rev (sort_key (\<lambda>r. ts (created_at r)) rows))"
proof -
  have "sorted (map (\<lambda>r. ts (created_at r)) (sort_key (\<lambda>r. ts (created_at r)) rows))"
    by (rule sorted_sort_key)
  then show ?thesis
    by (simp add: newest_first_def sorted_wrt_rev sorted_map)
qed

lemma reportsQuery_shape:
  "q_from (reportsQuery sel dr) = ''geotranote_reports'' \<and>
   q_order (reportsQuery sel dr) = Some (''created_at'', False) \<and>
   q_filters (reportsQuery sel dr) =
     (if sel \<noteq> ''all'' then [Eq ''service_name'' sel] else []) @
     (if start_date dr \<noteq> [] then [Gte ''created_at'' (start_date dr)] else []) @
     (if end_date dr \<noteq> [] then [Lte ''created_at'' (end_date dr @ ''T23:59:59'')] else [])"
  by (simp add: reportsQuery_def eq_def gte_def lte_def Let_def)

lemma reportsQuery_supported: "list_all supported (q_filters (reportsQuery sel dr))"
  by (simp add: reportsQuery_shape)

lemma reportsQuery_satisfies:
  "list_all (satisfies ts r) (q_filters (reportsQuery sel dr)) = requested ts sel dr r"
  by (simp add: reportsQuery_shape requested_def)

text \<open>
  The store answers the query of the dashboard with the rows the query asks
  for, newest first.
\<close>

lemma select_reports_reportsQuery:
  "select_reports ts table (reportsQuery sel dr) =
     \<lparr>data = Some (rev (sort_key (\<lambda>r. ts (created_at r)) (filter (requested ts sel dr) table))),
      error = None\<rparr>"
  by (simp add: select_reports_def reportsQuery_supported reportsQuery_satisfies Let_def)
     (simp add: reportsQuery_shape)

lemma fetchData_reports:
  assumes "reports_response backend (reportsQuery (selectedService st) (dateRange st)) =
           \<lparr>data = Some rs, error = None\<rparr>"
  shows "reports (fst (fetchData backend st)) = rs"
  using assms
  by (simp add: fetchData_def Let_def fetch_failed_def split: option.splits)

lemma fetchData_store_reports:
  "reports (fst (fetchData (store_backend ts rtable itable) st)) =
     rev (sort_key (\<lambda>r. ts (created_at r))
       (filter (requested ts (selectedService st) (dateRange st)) rtable))"
  by (rule fetchData_reports) (simp add: store_backend_def select_reports_reportsQuery)

lemma fetchData_requested_newest_first:
  "mset (reports (fst (fetchData (store_backend ts rtable itable) st))) =
     mset (filter (requested ts (selectedService st) (dateRange st)) rtable) \<and>
   newest_first ts (reports (fst (fetchData (store_backend ts rtable itable) st)))"
  by (simp add: fetchData_store_reports newest_first_rev_sort)

text \<open>
  C2. The claim asks for every report within the end date, up to the end of
  that day. The code's upper bound is the end date followed by
  \<^verbatim>\<open>T23:59:59\<close>, the first instant of the day's last second: a report
  created later in that second satisfies the filter predicate and is not
  returned. With no service filter and the end date 2024-03-02, of the two
  reports created on that day at 23:59:59 and at 23:59:59.500 only the
  first is returned.
\<close>

theorem end_date_fraction_dropped:
  "created_on late_report = end_date (dateRange until_march_2) \<and>
   matches (selectedService until_march_2) (dateRange until_march_2) report_b \<and>
   matches (selectedService until_march_2) (dateRange until_march_2) late_report \<and>
   reports (fst (fetchData (store_backend as_text [report_b, late_report] []) until_march_2)) =
     [report_b]"
  by code_simp

text \<open>
  C3. When the report query is answered with the empty list, the
  infractions are set to empty and the report query is the only query sent.
  Whatever the store answers, a query with an \<^verbatim>\<open>in\<close> filter is sent only
  with a non-empty list of identifiers, those of the reports returned.
\<close>

theorem fetchData_short_circuit:
  "(reports_response backend (reportsQuery (selectedService st) (dateRange st)) =
      \<lparr>data = Some [], error = None\<rparr> \<longrightarrow>
    dash_infractions (fst (fetchData backend st)) = [] \<and>
    snd (fetchData backend st) = [reportsQuery (selectedService st) (dateRange st)]) \<and>
   (\<forall>q \<in> set (snd (fetchData backend st)). \<forall>c ids. In c ids \<in> set (q_filters q) \<longrightarrow>
      ids \<noteq> [] \<and>
      (\<exists>rs. reports_response backend (reportsQuery (selectedService st) (dateRange st)) =
              \<lparr>data = Some rs, error = None\<rparr> \<and>
            ids = map the (filter (\<lambda>i. i \<noteq> None) (map id_field rs))))"
proof (intro conjI impI ballI allI)
  assume "reports_response backend (reportsQuery (selectedService st) (dateRange st)) =
      \<lparr>data = Some [], error = None\<rparr>"
  then show "dash_infractions (fst (fetchData backend st)) = []"
    and "snd (fetchData backend st) = [reportsQuery (selectedService st) (dateRange st)]"
    by (simp_all add: fetchData_def Let_def)
next
  fix q c ids
  assume q: "q \<in> set (snd (fetchData backend st))" and f: "In c ids \<in> set (q_filters q)"
  let ?r = "reports_response backend (reportsQuery (selectedService st) (dateRange st))"
  have no_in: "In c ids \<notin> set (q_filters (reportsQuery (selectedService st) (dateRange st)))"
    by (simp add: reportsQuery_shape)
  from q f no_in
  have "ids \<noteq> [] \<and> (\<exists>rs. data ?r = Some rs \<and> error ?r = None \<and>
          ids = map the (filter (\<lambda>i. i \<noteq> None) (map id_field rs)))"
    by (auto simp: fetchData_def Let_def infractionsQuery_def
             split: option.splits if_splits)
  then obtain rs where ne: "ids \<noteq> []" and d: "data ?r = Some rs" and e: "error ?r = None"
    and ids: "ids = map the (filter (\<lambda>i. i \<noteq> None) (map id_field rs))"
    by blast
  have "?r = \<lparr>data = data ?r, error = error ?r\<rparr>" by simp
  with d e have "?r = \<lparr>data = Some rs, error = None\<rparr>" by simp
  with ne ids show "ids \<noteq> []"
    and "\<exists>rs. ?r = \<lparr>data = Some rs, error = None\<rparr> \<and>
            ids = map the (filter (\<lambda>i. i \<noteq> None) (map id_field rs))"
    by blast+
qed

theorem fetchData_short_circuit_witness:
  "reports_response (store_backend (\<lambda>s. s) [report_c] [])
      (reportsQuery (selectedService march_view) (dateRange march_view)) =
     \<lparr>data = Some [], error = None\<rparr> \<and>
   dash_infractions (fst (fetchData (store_backend (\<lambda>s. s) [report_c] []) march_view)) = [] \<and>
   snd (fetchData (store_backend (\<lambda>s. s) [report_c] []) march_view) =
     [reportsQuery (selectedService march_view) (dateRange march_view)] \<and>
   infractionsQuery [2, 1] \<in>
     set (snd (fetchData (store_backend (\<lambda>s. s) [report_a, report_b] []) march_view)) \<and>
   In ''report_uid'' [2, 1] \<in> set (q_filters (infractionsQuery [2, 1])) \<and>
   (\<exists>rs. reports_response (store_backend (\<lambda>s. s) [report_a, report_b] [])
            (reportsQuery (selectedService march_view) (dateRange march_view)) =
          \<lparr>data = Some rs, error = None\<rparr> \<and>
        [2, 1] = map the (filter (\<lambda>i. i \<noteq> None) (map id_field rs)))"
proof -
  let ?none = "store_backend (\<lambda>s. s) [report_c] []"
  let ?some = "store_backend (\<lambda>s. s) [report_a, report_b] []"
  have h1: "reports_response ?none
      (reportsQuery (selectedService march_view) (dateRange march_view)) =
     \<lparr>data = Some [], error = None\<rparr>"
    by code_simp
  have h2: "infractionsQuery [2, 1] \<in> set (snd (fetchData ?some march_view))"
    by code_simp
  have h3: "In ''report_uid'' [2, 1] \<in> set (q_filters (infractionsQuery [2, 1]))"
    by (simp add: infractionsQuery_def)
  from fetchData_short_circuit [of ?none march_view] h1
  have a: "dash_infractions (fst (fetchData ?none march_view)) = [] \<and>
    snd (fetchData ?none march_view) =
      [reportsQuery (selectedService march_view) (dateRange march_view)]"
    by blast
  from fetchData_short_circuit [of ?some march_view] h2 h3
  have b: "\<exists>rs. reports_response ?some
            (reportsQuery (selectedService march_view) (dateRange march_view)) =
          \<lparr>data = Some rs, error = None\<rparr> \<and>
        [2, 1] = map the (filter (\<lambda>i. i \<noteq> None) (map id_field rs))"
    by blast
  from h1 h2 h3 a b show ?thesis by blast
qed

section \<open>The submission workflow: properties\<close>

subsection \<open>The store\<close>

lemma fold_max_ge: "x \<in> set xs \<Longrightarrow> x \<le> fold max xs (a::nat)"
proof -
  assume "x \<in> set xs"
  then have "x \<le> Max (set (a # xs))" by (intro Max_ge) simp_all
  then show ?thesis by (simp only: Max.set_eq_fold)
qed

lemma fresh_uid_above: "(k, v) \<in> set table \<Longrightarrow> k < fresh_uid table"
  using fold_max_ge [of k "map fst table" 0]
  by (force simp: fresh_uid_def less_Suc_eq_le)

lemma fresh_uid_notin: "fresh_uid table \<notin> fst ` set table"
  using fresh_uid_above [of "fresh_uid table" _ table] by fastforce

lemma insert_rows_spec:
  "insert_rows rows table = (us, table') \<Longrightarrow>
     length us = length rows \<and> table' = table @ zip us rows \<and> distinct us \<and>
     set us \<inter> fst ` set table = {}"
proof (induction rows arbitrary: table us table')
  case Nil
  then show ?case by simp
next
  case (Cons row rows)
  obtain us1 t2 where rec: "insert_rows rows (table @ [(fresh_uid table, row)]) = (us1, t2)"
    by (cases "insert_rows rows (table @ [(fresh_uid table, row)])")
  from Cons.prems rec have us: "us = fresh_uid table # us1" and t: "table' = t2"
    by (simp_all add: insert_row_def)
  from Cons.IH [OF rec]
  have ih: "length us1 = length rows" "t2 = (table @ [(fresh_uid table, row)]) @ zip us1 rows"
    "distinct us1" "set us1 \<inter> fst ` set (table @ [(fresh_uid table, row)]) = {}"
    by simp_all
  from ih(4) have "fresh_uid table \<notin> set us1" "set us1 \<inter> fst ` set table = {}"
    by auto
  with ih us t fresh_uid_notin [of table] show ?case
    by auto
qed

lemma upsert_row_append:
  "k \<notin> fst ` set pre \<Longrightarrow> upsert_row (k, v) (pre @ xs) = pre @ upsert_row (k, v) xs"
  by (induction pre) auto

lemma fold_upsert_zip:
  "distinct us \<Longrightarrow> length vs = length us \<Longrightarrow> length vs' = length us \<Longrightarrow>
   set us \<inter> fst ` set pre = {} \<Longrightarrow>
   fold upsert_row (zip us vs') (pre @ zip us vs) = pre @ zip us vs'"
proof (induction us arbitrary: pre vs vs')
  case Nil
  then show ?case by simp
next
  case (Cons u us)
  from Cons.prems obtain v vs1 v' vs1' where vs: "vs = v # vs1" "vs' = v' # vs1'"
    by (cases vs; cases vs') auto
  from Cons.prems have u: "u \<notin> fst ` set pre" by auto
  have step: "upsert_row (u, v') (pre @ (u, v) # zip us vs1) = (pre @ [(u, v')]) @ zip us vs1"
    using u by (simp add: upsert_row_append)
  have "fold upsert_row (zip us vs1') ((pre @ [(u, v')]) @ zip us vs1) =
        (pre @ [(u, v')]) @ zip us vs1'"
    using Cons.prems vs by (intro Cons.IH) auto
  then have "fold upsert_row (zip us vs1') (upsert_row (u, v') (pre @ (u, v) # zip us vs1)) =
        pre @ (u, v') # zip us vs1'"
    by (simp only: step) simp
  then show ?case
    by (simp only: vs zip_Cons_Cons fold_simps)
qed

lemma upsert_rows_rebind:
  "distinct us \<Longrightarrow> length vs = length us \<Longrightarrow> set us \<inter> fst ` set table = {} \<Longrightarrow>
   upsert_rows (zip us (map f vs)) (table @ zip us vs) = table @ zip us (map f vs)"
  unfolding upsert_rows_def by (rule fold_upsert_zip) simp_all

lemma updatedInfractions_zip:
  "length us = length infs \<Longrightarrow>
   updatedInfractions us r infs = Some (zip us (map (bound_to r) infs))"
  by (auto simp: updatedInfractions_def bound_to_def intro!: nth_equalityI)

lemma length_infractionData [simp]: "length (infractionData infs) = length infs"
  by (simp add: infractionData_def)

lemma bound_to_infractionData [simp]:
  "map (bound_to r) (infractionData infs) = map (bound_to r) infs"
  by (simp add: infractionData_def bound_to_def)

subsection \<open>The six outcomes of a submission\<close>

lemmas submit_defs =
  handleSubmit_def nanoid_def send_def insert_infractions_def insert_report_def
  upsert_infractions_def insert_row_def submitted_def Let_def case_prod_beta

lemma submit_empty_report_fails:
  assumes "infractions ui = []" and "fault env (requests w) = Some e"
  shows "handleSubmit env ui w =
    (ui\<lparr>formError := Some msg_save_form, protocolNumber := None\<rparr>,
     w\<lparr>trace := trace w @
          [Nanoid (nanoid_token env (draws w)),
           Sent (InsertReport (newReport (formData ui) (nanoid_token env (draws w)))) (Some e)],
       draws := Suc (draws w), requests := Suc (requests w)\<rparr>)"
  using assms by (simp add: submit_defs)

lemma submit_empty_ok:
  assumes "infractions ui = []" and "fault env (requests w) = None"
  shows "handleSubmit env ui w =
    (ui\<lparr>formError := None, protocolNumber := Some (nanoid_token env (draws w)),
        formData := default_formData, infractions := []\<rparr>,
     w\<lparr>store := (store w)\<lparr>geotranote_reports := geotranote_reports (store w) @
            [(fresh_uid (geotranote_reports (store w)),
              newReport (formData ui) (nanoid_token env (draws w)))]\<rparr>,
       trace := trace w @
          [Nanoid (nanoid_token env (draws w)),
           Sent (InsertReport (newReport (formData ui) (nanoid_token env (draws w)))) None,
           Alert (msg_saved (nanoid_token env (draws w)))],
       draws := Suc (draws w), requests := Suc (requests w)\<rparr>)"
  using assms by (simp add: submit_defs)

lemma submit_infractions_fail:
  assumes "infractions ui \<noteq> []" and "fault env (requests w) = Some e"
  shows "handleSubmit env ui w =
    (ui\<lparr>formError := Some msg_save_data, protocolNumber := None\<rparr>,
     w\<lparr>trace := trace w @
          [Nanoid (nanoid_token env (draws w)),
           Sent (InsertInfractions (infractionData (infractions ui))) (Some e)],
       draws := Suc (draws w), requests := Suc (requests w)\<rparr>)"
  using assms by (simp add: submit_defs)

lemma submit_report_fails:
  assumes "infractions ui \<noteq> []" and "fault env (requests w) = None"
    and "fault env (Suc (requests w)) = Some e"
  shows "handleSubmit env ui w =
    (ui\<lparr>formError := Some msg_save_form, protocolNumber := None\<rparr>,
     w\<lparr>store := (store w)\<lparr>infractions_table := infractions_table (store w) @
            zip (fst (insert_rows (infractionData (infractions ui)) (infractions_table (store w))))
                (infractionData (infractions ui))\<rparr>,
       trace := trace w @
          [Nanoid (nanoid_token env (draws w)),
           Sent (InsertInfractions (infractionData (infractions ui))) None,
           Sent (InsertReport (newReport (formData ui) (nanoid_token env (draws w)))) (Some e)],
       draws := Suc (draws w), requests := Suc (Suc (requests w))\<rparr>)"
proof -
  obtain us t where ins:
    "insert_rows (infractionData (infractions ui)) (infractions_table (store w)) = (us, t)"
    by (cases "insert_rows (infractionData (infractions ui)) (infractions_table (store w))")
  from insert_rows_spec [OF ins]
  have t: "t = infractions_table (store w) @ zip us (infractionData (infractions ui))"
    by simp
  show ?thesis
    using assms by (simp add: submit_defs ins t)
qed

lemma submit_rebinding_fails:
  assumes "infractions ui \<noteq> []" and "fault env (requests w) = None"
    and "fault env (Suc (requests w)) = None"
    and "fault env (Suc (Suc (requests w))) = Some e"
  shows "handleSubmit env ui w =
    (ui\<lparr>formError := Some msg_update_infractions, protocolNumber := None\<rparr>,
     w\<lparr>store := \<lparr>geotranote_reports = geotranote_reports (store w) @
              [(fresh_uid (geotranote_reports (store w)),
                newReport (formData ui) (nanoid_token env (draws w)))],
            infractions_table = infractions_table (store w) @
              zip (fst (insert_rows (infractionData (infractions ui)) (infractions_table (store w))))
                  (infractionData (infractions ui))\<rparr>,
       trace := trace w @
          [Nanoid (nanoid_token env (draws w)),
           Sent (InsertInfractions (infractionData (infractions ui))) None,
           Sent (InsertReport (newReport (formData ui) (nanoid_token env (draws w)))) None,
           Sent (UpsertInfractions
             (zip (fst (insert_rows (infractionData (infractions ui)) (infractions_table (store w))))
                  (map (bound_to (fresh_uid (geotranote_reports (store w)))) (infractions ui))))
             (Some e)],
       draws := Suc (draws w), requests := Suc (Suc (Suc (requests w)))\<rparr>)"
proof -
  obtain us t where ins:
    "insert_rows (infractionData (infractions ui)) (infractions_table (store w)) = (us, t)"
    by (cases "insert_rows (infractionData (infractions ui)) (infractions_table (store w))")
  from insert_rows_spec [OF ins]
  have t: "t = infractions_table (store w) @ zip us (infractionData (infractions ui))"
    and len: "length us = length (infractions ui)"
    by simp_all
  show ?thesis
    using assms by (simp add: submit_defs ins t updatedInfractions_zip [OF len])
qed

lemma submit_ok:
  assumes "infractions ui \<noteq> []" and "fault env (requests w) = None"
    and "fault env (Suc (requests w)) = None"
    and "fault env (Suc (Suc (requests w))) = None"
  shows "handleSubmit env ui w =
    (ui\<lparr>formError := None, protocolNumber := Some (nanoid_token env (draws w)),
        formData := default_formData, infractions := []\<rparr>,
     w\<lparr>store := \<lparr>geotranote_reports = geotranote_reports (store w) @
              [(fresh_uid (geotranote_reports (store w)),
                newReport (formData ui) (nanoid_token env (draws w)))],
            infractions_table = infractions_table (store w) @
              zip (fst (insert_rows (infractionData (infractions ui)) (infractions_table (store w))))
                  (map (bound_to (fresh_uid (geotranote_reports (store w)))) (infractions ui))\<rparr>,
       trace := trace w @
          [Nanoid (nanoid_token env (draws w)),
           Sent (InsertInfractions (infractionData (infractions ui))) None,
           Sent (InsertReport (newReport (formData ui) (nanoid_token env (draws w)))) None,
           Sent (UpsertInfractions
             (zip (fst (insert_rows (infractionData (infractions ui)) (infractions_table (store w))))
                  (map (bound_to (fresh_uid (geotranote_reports (store w)))) (infractions ui))))
             None,
           Alert (msg_saved (nanoid_token env (draws w)))],
       draws := Suc (draws w), requests := Suc (Suc (Suc (requests w)))\<rparr>)"
proof -
  obtain us t where ins:
    "insert_rows (infractionData (infractions ui)) (infractions_table (store w)) = (us, t)"
    by (cases "insert_rows (infractionData (infractions ui)) (infractions_table (store w))")
  from insert_rows_spec [OF ins]
  have t: "t = infractions_table (store w) @ zip us (infractionData (infractions ui))"
    and len: "length us = length (infractions ui)"
    and d: "distinct us" and fr: "set us \<inter> fst ` set (infractions_table (store w)) = {}"
    by simp_all
  have re: "upsert_rows
       (zip us (map (bound_to (fresh_uid (geotranote_reports (store w)))) (infractions ui)))
       (infractions_table (store w) @ zip us (infractionData (infractions ui))) =
     infractions_table (store w) @
       zip us (map (bound_to (fresh_uid (geotranote_reports (store w)))) (infractions ui))"
    using upsert_rows_rebind [OF d _ fr, of "infractionData (infractions ui)"
        "bound_to (fresh_uid (geotranote_reports (store w)))"] len
    by simp
  show ?thesis
    using assms by (simp add: submit_defs ins t updatedInfractions_zip [OF len] re)
qed

lemma submit_cases [case_names empty_fail empty_ok infr_fail report_fail rebind_fail ok]:
  obtains e where "infractions ui = []" "fault env (requests w) = Some e"
  | "infractions ui = []" "fault env (requests w) = None"
  | e where "infractions ui \<noteq> []" "fault env (requests w) = Some e"
  | e where "infractions ui \<noteq> []" "fault env (requests w) = None"
      "fault env (Suc (requests w)) = Some e"
  | e where "infractions ui \<noteq> []" "fault env (requests w) = None"
      "fault env (Suc (requests w)) = None" "fault env (Suc (Suc (requests w))) = Some e"
  | "infractions ui \<noteq> []" "fault env (requests w) = None"
      "fault env (Suc (requests w)) = None" "fault env (Suc (Suc (requests w))) = None"
  by (cases "infractions ui = []"; cases "fault env (requests w)";
      cases "fault env (Suc (requests w))"; cases "fault env (Suc (Suc (requests w)))") auto

lemma result_eq: "f = (a, b) \<Longrightarrow> f = (a', b') \<Longrightarrow> a' = a \<and> b' = b"
  by simp

lemma insert_rows_fst:
  "length (fst (insert_rows rows table)) = length rows \<and>
   distinct (fst (insert_rows rows table)) \<and>
   set (fst (insert_rows rows table)) \<inter> fst ` set table = {}"
  using insert_rows_spec [of rows table "fst (insert_rows rows table)" "snd (insert_rows rows table)"]
  by simp

lemma scenario_simps:
  "formData scenario_form =
     \<lparr>service_name = ''ordinario'', sector = default_sector, car_removals = 2,
      motorcycle_removals = 1, total_approaches = 5\<rparr>"
  "infractions scenario_form = [\<lparr>quantity = 3, report_uid = None, infraction_type = ''X''\<rparr>]"
  "geotranote_reports (store empty_world) = []"
  "infractions_table (store empty_world) = []"
  "draws empty_world = 0" "requests empty_world = 0" "trace empty_world = []"
  "nanoid_token reliable = tokens" "nanoid_token (failing_at k) = tokens"
  "fault reliable n = None"
  "fault (failing_at k) n = (if n = k then Some timeout else None)"
  "tokens 0 = ''p''"
  by (simp_all add: scenario_form_def empty_world_def reliable_def failing_at_def tokens_def)

subsection \<open>What a submission persists\<close>

text \<open>
  C1. A submission that completes (it shows a protocol number) with \<open>N\<close>
  pending entries adds exactly one row to the reports, with the form's
  service type, sector and three counts and the protocol number, under an
  identifier new to the table; and adds exactly \<open>N\<close> rows to the
  infractions, under \<open>N\<close> distinct new identifiers, the \<open>i\<close>-th with the type
  and quantity of the \<open>i\<close>-th pending entry and bound to the report's
  identifier.
\<close>

theorem submission_persists:
  assumes "handleSubmit env ui w = (ui', w')" and "protocolNumber ui' = Some p"
  shows "\<exists>r us.
     geotranote_reports (store w') = geotranote_reports (store w) @
       [(r, \<lparr>service_name = service_name (formData ui), sector = sector (formData ui),
             car_removals = car_removals (formData ui),
             motorcycle_removals = motorcycle_removals (formData ui),
             total_approaches = total_approaches (formData ui), protocol_number = p\<rparr>)] \<and>
     r \<notin> fst ` set (geotranote_reports (store w)) \<and>
     length us = length (infractions ui) \<and> distinct us \<and>
     set us \<inter> fst ` set (infractions_table (store w)) = {} \<and>
     infractions_table (store w') =
       infractions_table (store w) @ zip us (map (bound_to r) (infractions ui))"
proof (cases rule: submit_cases [of ui env w])
  case (empty_fail e)
  from result_eq [OF submit_empty_report_fails [OF empty_fail] assms(1)] assms(2)
  show ?thesis by simp
next
  case empty_ok
  from result_eq [OF submit_empty_ok [OF empty_ok] assms(1)] assms(2) empty_ok(1)
    fresh_uid_notin [of "geotranote_reports (store w)"]
  show ?thesis
    by (intro exI [of _ "fresh_uid (geotranote_reports (store w))"] exI [of _ "[]"])
       (simp add: newReport_def)
next
  case (infr_fail e)
  from result_eq [OF submit_infractions_fail [OF infr_fail] assms(1)] assms(2)
  show ?thesis by simp
next
  case (report_fail e)
  from result_eq [OF submit_report_fails [OF report_fail] assms(1)] assms(2)
  show ?thesis by simp
next
  case (rebind_fail e)
  from result_eq [OF submit_rebinding_fails [OF rebind_fail] assms(1)] assms(2)
  show ?thesis by simp
next
  case ok
  let ?us = "fst (insert_rows (infractionData (infractions ui)) (infractions_table (store w)))"
  let ?r = "fresh_uid (geotranote_reports (store w))"
  from result_eq [OF submit_ok [OF ok] assms(1)] assms(2)
    fresh_uid_notin [of "geotranote_reports (store w)"]
    insert_rows_fst [of "infractionData (infractions ui)" "infractions_table (store w)"]
  show ?thesis
    by (intro exI [of _ ?r] exI [of _ ?us]) (simp add: newReport_def)
qed

theorem submission_persists_witness:
  "protocolNumber (fst (handleSubmit reliable scenario_form empty_world)) = Some ''p'' \<and>
   (\<exists>r us.
      geotranote_reports (store (snd (handleSubmit reliable scenario_form empty_world))) =
        [(r, \<lparr>service_name = ''ordinario'', sector = default_sector, car_removals = 2,
              motorcycle_removals = 1, total_approaches = 5, protocol_number = ''p''\<rparr>)] \<and>
      length us = 1 \<and>
      infractions_table (store (snd (handleSubmit reliable scenario_form empty_world))) =
        zip us [\<lparr>quantity = 3, report_uid = Some r, infraction_type = ''X''\<rparr>])"
proof -
  have h: "protocolNumber (fst (handleSubmit reliable scenario_form empty_world)) = Some ''p''"
    by code_simp
  from submission_persists [OF surjective_pairing h] h show ?thesis
    by (auto simp: scenario_simps bound_to_def)
qed

subsection \<open>Failures\<close>

text \<open>
  C5. With at least one pending entry, when the batch insert of the
  infractions fails the submission ends with the error message of the
  \<^verbatim>\<open>catch\<close> block and without a protocol number, the store is unchanged, and
  the failed insert is the only request sent: no report is inserted.
\<close>

theorem infraction_insert_failure_aborts:
  assumes "infractions ui \<noteq> []" and "fault env (requests w) = Some e"
    and "handleSubmit env ui w = (ui', w')"
  shows "formError ui' = Some msg_save_data \<and> protocolNumber ui' = None \<and>
         store w' = store w \<and>
         new_events w w' =
           [Nanoid (nanoid_token env (draws w)),
            Sent (InsertInfractions (infractionData (infractions ui))) (Some e)]"
  using result_eq [OF submit_infractions_fail [OF assms(1,2)] assms(3)]
  by (simp add: new_events_def)

theorem infraction_insert_failure_aborts_witness:
  "infractions scenario_form \<noteq> [] \<and>
   fault (failing_at 0) (requests empty_world) = Some timeout \<and>
   formError (fst (handleSubmit (failing_at 0) scenario_form empty_world)) = Some msg_save_data \<and>
   store (snd (handleSubmit (failing_at 0) scenario_form empty_world)) = store empty_world \<and>
   new_events empty_world (snd (handleSubmit (failing_at 0) scenario_form empty_world)) =
     [Nanoid ''p'',
      Sent (InsertInfractions [\<lparr>quantity = 3, report_uid = None, infraction_type = ''X''\<rparr>])
        (Some timeout)]"
proof -
  have h1: "infractions scenario_form \<noteq> []"
    by (simp add: scenario_simps)
  have h2: "fault (failing_at 0) (requests empty_world) = Some timeout"
    by (simp add: scenario_simps)
  from infraction_insert_failure_aborts [OF h1 h2 surjective_pairing] h1 h2 show ?thesis
    by (simp add: scenario_simps infractionData_def)
qed

text \<open>
  C6. When the infractions were inserted and the insert of the report
  fails, the inserted rows stay in the table, without a report reference;
  no report is stored; the form shows its error message; and the report
  insert is the last request sent: there is no rebinding update and nothing
  is deleted.
\<close>

theorem report_insert_failure_leaves_orphans:
  assumes "infractions ui \<noteq> []" and "fault env (requests w) = None"
    and "fault env (Suc (requests w)) = Some e"
    and "handleSubmit env ui w = (ui', w')"
  shows "\<exists>us. length us = length (infractions ui) \<and> distinct us \<and>
           set us \<inter> fst ` set (infractions_table (store w)) = {} \<and>
           infractions_table (store w') =
             infractions_table (store w) @ zip us (infractionData (infractions ui)) \<and>
           (\<forall>row \<in> set (infractionData (infractions ui)). report_uid row = None) \<and>
           geotranote_reports (store w') = geotranote_reports (store w) \<and>
           formError ui' = Some msg_save_form \<and> protocolNumber ui' = None \<and>
           new_events w w' =
             [Nanoid (nanoid_token env (draws w)),
              Sent (InsertInfractions (infractionData (infractions ui))) None,
              Sent (InsertReport (newReport (formData ui) (nanoid_token env (draws w))))
                (Some e)]"
proof -
  let ?us = "fst (insert_rows (infractionData (infractions ui)) (infractions_table (store w)))"
  have "\<forall>row \<in> set (infractionData (infractions ui)). report_uid row = None"
    by (auto simp: infractionData_def)
  with result_eq [OF submit_report_fails [OF assms(1-3)] assms(4)]
    insert_rows_fst [of "infractionData (infractions ui)" "infractions_table (store w)"]
  show ?thesis
    by (intro exI [of _ ?us]) (simp add: new_events_def)
qed

theorem report_insert_failure_leaves_orphans_witness:
  "infractions scenario_form \<noteq> [] \<and>
   fault (failing_at 1) (requests empty_world) = None \<and>
   fault (failing_at 1) (Suc (requests empty_world)) = Some timeout \<and>
   (\<exists>u. infractions_table (store (snd (handleSubmit (failing_at 1) scenario_form empty_world))) =
          [(u, \<lparr>quantity = 3, report_uid = None, infraction_type = ''X''\<rparr>)]) \<and>
   geotranote_reports (store (snd (handleSubmit (failing_at 1) scenario_form empty_world))) = [] \<and>
   formError (fst (handleSubmit (failing_at 1) scenario_form empty_world)) = Some msg_save_form"
proof -
  have h1: "infractions scenario_form \<noteq> []"
    by (simp add: scenario_simps)
  have h2: "fault (failing_at 1) (requests empty_world) = None"
    by (simp add: scenario_simps)
  have h3: "fault (failing_at 1) (Suc (requests empty_world)) = Some timeout"
    by (simp add: scenario_simps)
  from report_insert_failure_leaves_orphans [OF h1 h2 h3 surjective_pairing]
  obtain us where "length us = length (infractions scenario_form)"
    and "infractions_table (store (snd (handleSubmit (failing_at 1) scenario_form empty_world))) =
         infractions_table (store empty_world) @ zip us (infractionData (infractions scenario_form))"
    and "geotranote_reports (store (snd (handleSubmit (failing_at 1) scenario_form empty_world))) =
         geotranote_reports (store empty_world)"
    and "formError (fst (handleSubmit (failing_at 1) scenario_form empty_world)) = Some msg_save_form"
    by blast
  moreover from this(1) obtain u where "us = [u]"
    by (cases us) (auto simp: scenario_simps)
  ultimately show ?thesis
    using h1 h2 h3 by (simp add: scenario_simps infractionData_def)
qed

text \<open>
  C7. When a request of the submission is answered with an error, whichever
  of the three it is, the form ends with exactly one message, the one of
  the failed step, in \<^verbatim>\<open>formError\<close>; no alert is shown; and the rest of the
  form's state, the field values and the pending list among it, is as it
  was before.
\<close>

theorem failure_keeps_form:
  assumes "handleSubmit env ui w = (ui', w')"
    and "Sent req (Some e) \<in> set (new_events w w')"
  shows "\<exists>msg. ui' = ui\<lparr>formError := Some msg, protocolNumber := None\<rparr> \<and>
           formData ui' = formData ui \<and> infractions ui' = infractions ui \<and>
           msg = (case req of InsertInfractions rows \<Rightarrow> msg_save_data
                  | InsertReport row \<Rightarrow> msg_save_form
                  | UpsertInfractions rows \<Rightarrow> msg_update_infractions) \<and>
           (\<forall>a. Alert a \<notin> set (new_events w w'))"
proof (cases rule: submit_cases [of ui env w])
  case (empty_fail e)
  from result_eq [OF submit_empty_report_fails [OF empty_fail] assms(1)] assms(2)
  show ?thesis by (auto simp: new_events_def)
next
  case empty_ok
  from result_eq [OF submit_empty_ok [OF empty_ok] assms(1)] assms(2)
  show ?thesis by (auto simp: new_events_def)
next
  case (infr_fail e)
  from result_eq [OF submit_infractions_fail [OF infr_fail] assms(1)] assms(2)
  show ?thesis by (auto simp: new_events_def)
next
  case (report_fail e)
  from result_eq [OF submit_report_fails [OF report_fail] assms(1)] assms(2)
  show ?thesis by (auto simp: new_events_def)
next
  case (rebind_fail e)
  from result_eq [OF submit_rebinding_fails [OF rebind_fail] assms(1)] assms(2)
  show ?thesis by (auto simp: new_events_def)
next
  case ok
  from result_eq [OF submit_ok [OF ok] assms(1)] assms(2)
  show ?thesis by (auto simp: new_events_def)
qed

theorem failure_keeps_form_witness:
  "Sent (UpsertInfractions [(1, \<lparr>quantity = 3, report_uid = Some 1, infraction_type = ''X''\<rparr>)])
      (Some timeout)
     \<in> set (new_events empty_world (snd (handleSubmit (failing_at 2) scenario_form empty_world))) \<and>
   fst (handleSubmit (failing_at 2) scenario_form empty_world) =
     scenario_form\<lparr>formError := Some msg_update_infractions, protocolNumber := None\<rparr> \<and>
   formData (fst (handleSubmit (failing_at 2) scenario_form empty_world)) = formData scenario_form \<and>
   infractions (fst (handleSubmit (failing_at 2) scenario_form empty_world)) =
     infractions scenario_form"
proof -
  have h: "Sent (UpsertInfractions
                   [(1, \<lparr>quantity = 3, report_uid = Some 1, infraction_type = ''X''\<rparr>)])
             (Some timeout)
           \<in> set (new_events empty_world
                    (snd (handleSubmit (failing_at 2) scenario_form empty_world)))"
    by code_simp
  from failure_keeps_form [OF surjective_pairing h] h show ?thesis
    by auto
qed

subsection \<open>The protocol number\<close>

lemma handleSubmit_draws:
  assumes "handleSubmit env ui w = (ui', w')"
  shows "draws w' = Suc (draws w) \<and>
         (protocolNumber ui' = None \<or> protocolNumber ui' = Some (nanoid_token env (draws w)))"
proof (cases rule: submit_cases [of ui env w])
  case (empty_fail e)
  from result_eq [OF submit_empty_report_fails [OF empty_fail] assms] show ?thesis by simp
next
  case empty_ok
  from result_eq [OF submit_empty_ok [OF empty_ok] assms] show ?thesis by simp
next
  case (infr_fail e)
  from result_eq [OF submit_infractions_fail [OF infr_fail] assms] show ?thesis by simp
next
  case (report_fail e)
  from result_eq [OF submit_report_fails [OF report_fail] assms] show ?thesis by simp
next
  case (rebind_fail e)
  from result_eq [OF submit_rebinding_fails [OF rebind_fail] assms] show ?thesis by simp
next
  case ok
  from result_eq [OF submit_ok [OF ok] assms] show ?thesis by simp
qed

lemma protocol_numbers_Cons:
  assumes "handleSubmit env ui w = (ui', w')"
  shows "protocol_numbers env (ui # uis) w =
         (case protocolNumber ui' of None \<Rightarrow> [] | Some p \<Rightarrow> [p]) @ protocol_numbers env uis w'"
  using assms by (simp add: protocol_numbers_def split: option.splits)

lemma protocol_numbers_range:
  "set (protocol_numbers env uis w) \<subseteq> nanoid_token env ` {n. draws w \<le> n}"
proof (induction uis arbitrary: w)
  case Nil
  show ?case by (simp add: protocol_numbers_def)
next
  case (Cons ui uis)
  obtain ui' w' where hs: "handleSubmit env ui w = (ui', w')"
    by (cases "handleSubmit env ui w")
  from handleSubmit_draws [OF hs]
  have d: "draws w' = Suc (draws w)"
    and p: "protocolNumber ui' = None \<or> protocolNumber ui' = Some (nanoid_token env (draws w))"
    by simp_all
  from Cons.IH [of w'] d
  have "set (protocol_numbers env uis w') \<subseteq> nanoid_token env ` {n. draws w \<le> n}"
    by auto
  with p show ?case
    by (auto simp: protocol_numbers_Cons [OF hs])
qed

text \<open>
  When the generator never returns a token twice, no number is shown twice.
\<close>

lemma protocol_numbers_distinct:
  assumes "inj (nanoid_token env)"
  shows "distinct (protocol_numbers env uis w)"
proof (induction uis arbitrary: w)
  case Nil
  show ?case by (simp add: protocol_numbers_def)
next
  case (Cons ui uis)
  obtain ui' w' where hs: "handleSubmit env ui w = (ui', w')"
    by (cases "handleSubmit env ui w")
  from handleSubmit_draws [OF hs]
  have d: "draws w' = Suc (draws w)"
    and p: "protocolNumber ui' = None \<or> protocolNumber ui' = Some (nanoid_token env (draws w))"
    by simp_all
  have "nanoid_token env (draws w) \<notin> set (protocol_numbers env uis w')"
  proof
    assume "nanoid_token env (draws w) \<in> set (protocol_numbers env uis w')"
    with protocol_numbers_range [of env uis w'] d
    obtain n where "Suc (draws w) \<le> n" "nanoid_token env (draws w) = nanoid_token env n"
      by auto
    with assms show False
      by (auto dest: injD)
  qed
  with p Cons.IH [of w'] show ?case
    by (auto simp: protocol_numbers_Cons [OF hs])
qed





end
